theory Spec2Isabelle
  imports Complex_Main "HOL-Library.Log_Nat"
begin

section \<open>Keyboard layout (src/core/keyboard/layout.ts)\<close>

text \<open>
  Strings are lists of 8-bit characters; the words and keys of the program are ASCII.
  \<open>toLowerCase\<close> maps the letters A to Z to a to z and leaves every other character as
  it is.
\<close>

datatype Hand = Left | Right

definition toLowerCaseChar :: "char \<Rightarrow> char" where
  "toLowerCaseChar c =
     (let n = (of_char c :: nat)
      in if 65 \<le> n \<and> n \<le> 90 then char_of (n + 32) else c)"

definition toLowerCase :: "string \<Rightarrow> string" where
  "toLowerCase s = map toLowerCaseChar s"

definition LEFT_HAND_KEYS :: "string set" where
  "LEFT_HAND_KEYS =
     {''q'', ''w'', ''e'', ''r'', ''t'', ''a'', ''s'', ''d'', ''f'', ''g'',
      ''z'', ''x'', ''c'', ''v'', ''b''}"

definition RIGHT_HAND_KEYS :: "string set" where
  "RIGHT_HAND_KEYS =
     {''y'', ''u'', ''i'', ''o'', ''p'', ''h'', ''j'', ''k'', ''l'', ''n'', ''m''}"

definition getHandForKey :: "string \<Rightarrow> Hand option" where
  "getHandForKey key =
     (let lowerKey = toLowerCase key
      in if lowerKey \<in> LEFT_HAND_KEYS then Some Left
         else if lowerKey \<in> RIGHT_HAND_KEYS then Some Right
         else None)"

section \<open>Word classification (core/words/filter.ts)\<close>

text \<open>
  \<open>[...word.toLowerCase()]\<close> is the list of the one-character strings of the lowered
  word; \<open>every\<close> is \<open>list_all\<close>.
\<close>

definition spreadChars :: "string \<Rightarrow> string list" where
  "spreadChars s = map (\<lambda>c. [c]) s"

definition isLeftHandWord :: "string \<Rightarrow> bool" where
  "isLeftHandWord word =
     (if length word = 0 then False
      else list_all (\<lambda>char. getHandForKey char = Some Left) (spreadChars (toLowerCase word)))"

definition isRightHandWord :: "string \<Rightarrow> bool" where
  "isRightHandWord word =
     (if length word = 0 then False
      else list_all (\<lambda>char. getHandForKey char = Some Right) (spreadChars (toLowerCase word)))"

definition isSingleHandWord :: "string \<Rightarrow> Hand option" where
  "isSingleHandWord word =
     (if isLeftHandWord word then Some Left
      else if isRightHandWord word then Some Right
      else None)"

section \<open>Timing (src/core/timing/wpm.ts)\<close>

text \<open>
  A JavaScript number is an IEEE 754 double. A double is modelled by the real number it
  denotes, and every arithmetic operation of the source returns the exact result rounded
  to the nearest double, halves to the even significand: \<open>toDouble\<close>. A double has a
  significand of 53 bits, so in the binade \<open>2 powi e \<le> \<bar>x\<bar> < 2 powi (e + 1)\<close> the doubles are
  the multiples of \<open>2 powi (e - 52)\<close>. The range of the exponent is not bounded in the
  model: overflow to infinity, subnormal numbers and NaN are outside it (the counts and
  the durations in milliseconds that the component passes are far from both ends).
  \<open>Math.round\<close> is exact on a double: it is \<open>round\<close>, that is \<open>\<lfloor>x + 1/2\<rfloor>\<close>, halves go up.
  A failed Effect is \<open>Inl\<close> of the error, a successful one \<open>Inr\<close> of the value.
\<close>

definition roundHalfEven :: "real \<Rightarrow> int" where
  "roundHalfEven x =
     (let f = \<lfloor>x\<rfloor>; r = x - of_int f
      in if r < 1 / 2 then f
         else if 1 / 2 < r then f + 1
         else if even f then f else f + 1)"

text \<open>The exponent \<open>e\<close> of the binade of \<open>x \<noteq> 0\<close>, computed from the number of binary
  digits of the integer part of \<open>\<bar>x\<bar>\<close>, or of \<open>1 / \<bar>x\<bar>\<close> when \<open>\<bar>x\<bar> < 1\<close>.\<close>

definition binaryExponent :: "real \<Rightarrow> int" where
  "binaryExponent x =
     (let a = \<bar>x\<bar>
      in if 1 \<le> a then int (floorlog 2 (nat \<lfloor>a\<rfloor>)) - 1
         else let k = int (floorlog 2 (nat \<lfloor>1 / a\<rfloor>))
              in if a * 2 powi (k - 1) = 1 then 1 - k else - k)"

definition toDouble :: "real \<Rightarrow> real" where
  "toDouble x =
     (if x = 0 then 0
      else let u = 2 powi (binaryExponent x - 52)
           in of_int (roundHalfEven (x / u)) * u)"

datatype TimingError = TimingError string

definition CHARS_PER_WORD :: real where
  "CHARS_PER_WORD = 5"

definition calculateWPM :: "real \<Rightarrow> real \<Rightarrow> TimingError + int" where
  "calculateWPM characterCount durationMs =
     (if durationMs \<le> 0 then Inl (TimingError ''Duration must be positive'')
      else if characterCount = 0 then Inr 0
      else let wordsTyped = toDouble (characterCount / CHARS_PER_WORD);
               minutes = toDouble (durationMs / 60000)
           in Inr (round (toDouble (wordsTyped / minutes))))"

definition calculateAccuracy :: "real \<Rightarrow> real \<Rightarrow> TimingError + int" where
  "calculateAccuracy totalCharacters errorCount =
     (if totalCharacters = 0 then Inl (TimingError ''Total characters must be positive'')
      else let accuracy =
                 toDouble (toDouble (toDouble (totalCharacters - errorCount) / totalCharacters)
                             * 100)
           in Inr (max 0 (round accuracy)))"

text \<open>
  The timing session. \<open>Date.now()\<close> is the one input from outside: every function that
  reads the clock takes the reading as its first argument \<open>now\<close> (milliseconds, an
  integer). An absent optional field is \<open>None\<close>.
\<close>

record TimingSessionState =
  isRunning :: bool
  startTime :: "int option"
  endTime :: "int option"
  characterCount :: int
  errorCount :: int

definition TimingSession_create :: TimingSessionState where
  "TimingSession_create =
     \<lparr>isRunning = False, startTime = None, endTime = None,
      characterCount = 0, errorCount = 0\<rparr>"

definition TimingSession_start :: "int \<Rightarrow> TimingSessionState \<Rightarrow> TimingSessionState" where
  "TimingSession_start now s = s\<lparr>isRunning := True, startTime := Some now, endTime := None\<rparr>"

definition TimingSession_stop :: "int \<Rightarrow> TimingSessionState \<Rightarrow> TimingSessionState" where
  "TimingSession_stop now s = s\<lparr>isRunning := False, endTime := Some now\<rparr>"

definition TimingSession_getDuration :: "int \<Rightarrow> TimingSessionState \<Rightarrow> int" where
  "TimingSession_getDuration now s =
     (case startTime s of
        None \<Rightarrow> 0
      | Some st \<Rightarrow> (case endTime s of None \<Rightarrow> now | Some e \<Rightarrow> e) - st)"

definition TimingSession_addCharacter :: "TimingSessionState \<Rightarrow> bool \<Rightarrow> TimingSessionState" where
  "TimingSession_addCharacter s isCorrect =
     s\<lparr>characterCount := characterCount s + 1,
       errorCount := errorCount s + (if isCorrect then 0 else 1)\<rparr>"

section \<open>The typing test (components/TypingTest.tsx)\<close>

text \<open>
  The state of the component. \<open>currentPosition\<close> is an index into the text: it starts at
  0, goes up by one and goes down by one only when it is positive, so it is a natural
  number; \<open>typedChars\<close> is the Map from positions to the recorded outcome. The field
  \<open>text\<close> of the source is \<open>text'\<close> here.
\<close>

datatype Mode = ModeAll | ModeLeft | ModeRight

record TestState =
  mode :: Mode
  words :: "string list"
  text' :: string
  currentPosition :: nat
  typedChars :: "nat \<rightharpoonup> bool"
  session :: TimingSessionState
  isComplete :: bool
  isFocused :: bool
  isLoading :: bool
  fetchError :: "string option"

text \<open>\<open>words.join(" ")\<close>.\<close>

fun joinWords :: "string list \<Rightarrow> string" where
  "joinWords [] = []"
| "joinWords [w] = w"
| "joinWords (w # ws) = w @ '' '' @ joinWords ws"

text \<open>
  \<open>initialState\<close>: the words are drawn at random (from the cache or from the static
  lists), so the drawn words are an argument, and \<open>cached\<close> says whether the cache had
  an entry for the mode.
\<close>

definition initialState :: "Mode \<Rightarrow> string list \<Rightarrow> bool \<Rightarrow> TestState" where
  "initialState m ws cached =
     \<lparr>mode = m, words = ws, text' = joinWords ws, currentPosition = 0,
      typedChars = Map.empty, session = TimingSession_create, isComplete = False,
      isFocused = False, isLoading = (\<not> cached), fetchError = None\<rparr>"

text \<open>
  \<open>handleKeyDown\<close> queues up to two state updaters, which React applies in order: the
  one that starts the timer, then the one of the backspace branch or the one of the
  character branch. They are the next three definitions.
\<close>

definition startTimerUpdater :: "int \<Rightarrow> TestState \<Rightarrow> TestState" where
  "startTimerUpdater now prev =
     (if \<not> isRunning (session prev) \<and> \<not> isComplete prev
      then prev\<lparr>session := TimingSession_start now (session prev)\<rparr>
      else prev)"

definition backspaceUpdater :: "TestState \<Rightarrow> TestState" where
  "backspaceUpdater prev =
     (if currentPosition prev > 0
      then let newTypedChars = (typedChars prev)(currentPosition prev - 1 := None)
           in prev\<lparr>currentPosition := currentPosition prev - 1,
                   typedChars := newTypedChars\<rparr>
      else prev)"

definition characterUpdater :: "int \<Rightarrow> string \<Rightarrow> TestState \<Rightarrow> TestState" where
  "characterUpdater now key prev =
     (if currentPosition prev \<ge> length (text' prev) then prev
      else let expectedChar = [text' prev ! currentPosition prev];
               isCorrect = (key = expectedChar);
               newTypedChars = (typedChars prev)(currentPosition prev \<mapsto> isCorrect);
               newSession = TimingSession_addCharacter (session prev) isCorrect;
               nextPosition = currentPosition prev + 1
           in if nextPosition \<ge> length (text' prev)
              then prev\<lparr>currentPosition := nextPosition, typedChars := newTypedChars,
                        session := TimingSession_stop now newSession, isComplete := True\<rparr>
              else prev\<lparr>currentPosition := nextPosition, typedChars := newTypedChars,
                        session := newSession\<rparr>)"

text \<open>
  A keystroke event is the key (\<open>e.key\<close>: one character for a printable key, a name such
  as \<open>Backspace\<close> or \<open>Shift\<close> otherwise) with the two clock readings the event can use:
  the one \<open>TimingSession.start\<close> takes and the one \<open>TimingSession.stop\<close> takes.
  Events are handled one at a time, each on the state the one before left, so the state
  the handler reads at its first line (\<open>state.isComplete\<close>) is the state its updaters
  receive as \<open>prev\<close>.
\<close>

type_synonym KeyEvent = "string \<times> int \<times> int"

definition handleKeyDown :: "KeyEvent \<Rightarrow> TestState \<Rightarrow> TestState" where
  "handleKeyDown e state =
     (case e of (key, nowStart, nowStop) \<Rightarrow>
        if isComplete state then state
        else let started = startTimerUpdater nowStart state
             in if key = ''Backspace'' then backspaceUpdater started
                else if length key \<noteq> 1 then started
                else characterUpdater nowStop key started)"

text \<open>Keystroke events arrive one after the other; each is processed on the state the
  one before left.\<close>

definition typeKeys :: "KeyEvent list \<Rightarrow> TestState \<Rightarrow> TestState" where
  "typeKeys es state = foldl (\<lambda>s e. handleKeyDown e s) state es"

text \<open>
  The statistics the component derives at each render, at clock reading \<open>now\<close>.
  \<open>Effect.runSync\<close> throws when the Effect fails: the error is kept as \<open>Inl\<close>.
\<close>

definition duration :: "int \<Rightarrow> TestState \<Rightarrow> int" where
  "duration now state = TimingSession_getDuration now (session state)"

definition correctChars :: "TestState \<Rightarrow> int" where
  "correctChars state = characterCount (session state) - errorCount (session state)"

definition grossWpm :: "int \<Rightarrow> TestState \<Rightarrow> TimingError + int" where
  "grossWpm now state =
     (if characterCount (session state) > 0
      then calculateWPM (of_int (characterCount (session state)))
             (of_int (max (duration now state) 1))
      else Inr 0)"

definition netWpm :: "int \<Rightarrow> TestState \<Rightarrow> TimingError + int" where
  "netWpm now state =
     (if correctChars state > 0
      then calculateWPM (of_int (correctChars state)) (of_int (max (duration now state) 1))
      else Inr 0)"

definition accuracy :: "TestState \<Rightarrow> TimingError + int" where
  "accuracy state =
     (if characterCount (session state) > 0
      then calculateAccuracy (of_int (characterCount (session state)))
             (of_int (errorCount (session state)))
      else Inr 100)"

section \<open>Properties of the rounding to doubles\<close>

lemma roundHalfEven_of_int: "roundHalfEven (of_int n) = n"
  by (simp add: roundHalfEven_def)

lemma roundHalfEven_floor: "\<lfloor>x\<rfloor> \<le> roundHalfEven x \<and> roundHalfEven x \<le> \<lfloor>x\<rfloor> + 1"
  by (simp add: roundHalfEven_def Let_def)

lemma roundHalfEven_mono:
  assumes "x \<le> y"
  shows "roundHalfEven x \<le> roundHalfEven y"
proof (cases "\<lfloor>x\<rfloor> = \<lfloor>y\<rfloor>")
  case True
  with assms show ?thesis
    by (auto simp add: roundHalfEven_def Let_def)
next
  case False
  with assms have "\<lfloor>x\<rfloor> < \<lfloor>y\<rfloor>"
    using floor_mono [of x y] by linarith
  then have "\<lfloor>x\<rfloor> + 1 \<le> \<lfloor>y\<rfloor>" by simp
  with roundHalfEven_floor [of x] roundHalfEven_floor [of y] show ?thesis by linarith
qed

lemma floorlog2_bounds:
  assumes "0 < n"
  shows "(2::real) powi (int (floorlog 2 n) - 1) \<le> real n \<and>
         real n + 1 \<le> 2 powi (int (floorlog 2 n))"
proof -
  define k where "k = floorlog 2 n"
  from assms have pos: "0 < k"
    by (simp add: k_def floorlog_def)
  from floorlog_bounds [of n 2] assms
  have b: "2 ^ (k - 1) \<le> n" "n < 2 ^ k" by (simp_all add: k_def)
  from b(1) have "real (2 ^ (k - 1)) \<le> real n" by (simp only: of_nat_le_iff)
  then have lo: "(2::real) ^ (k - 1) \<le> real n" by simp
  from b(2) have "Suc n \<le> 2 ^ k" by simp
  then have "real (Suc n) \<le> real (2 ^ k)" by (simp only: of_nat_le_iff)
  then have hi: "real n + 1 \<le> 2 ^ k" by simp
  have "int k - 1 = int (k - 1)" using pos by simp
  then have "(2::real) powi (int k - 1) = 2 ^ (k - 1)" by (simp only: power_int_of_nat)
  moreover have "(2::real) powi (int k) = 2 ^ k" by (rule power_int_of_nat)
  ultimately show ?thesis using lo hi by (simp add: k_def)
qed

lemma nat_floor_bounds:
  assumes "1 \<le> (a::real)"
  shows "0 < nat \<lfloor>a\<rfloor> \<and> real (nat \<lfloor>a\<rfloor>) \<le> a \<and> a < real (nat \<lfloor>a\<rfloor>) + 1"
proof -
  from assms have "1 \<le> \<lfloor>a\<rfloor>" by simp
  then have "0 < nat \<lfloor>a\<rfloor>" and "real (nat \<lfloor>a\<rfloor>) = of_int \<lfloor>a\<rfloor>" by simp_all
  then show ?thesis by linarith
qed

lemma binaryExponent_bounds:
  assumes "x \<noteq> 0"
  shows "2 powi (binaryExponent x) \<le> \<bar>x\<bar> \<and> \<bar>x\<bar> < 2 powi (binaryExponent x + 1)"
proof -
  define a where "a = \<bar>x\<bar>"
  from assms have a_pos: "0 < a" by (simp add: a_def)
  show ?thesis
  proof (cases "1 \<le> a")
    case True
    define n where "n = nat \<lfloor>a\<rfloor>"
    define k where "k = int (floorlog 2 n)"
    from nat_floor_bounds [OF True] have n: "0 < n" "real n \<le> a" "a < real n + 1"
      by (simp_all add: n_def)
    from True have e: "binaryExponent x = k - 1"
      by (simp add: binaryExponent_def a_def n_def k_def)
    from floorlog2_bounds [OF n(1)] have "2 powi (k - 1) \<le> real n" "real n + 1 \<le> 2 powi k"
      by (simp_all add: k_def)
    with n have "2 powi (k - 1) \<le> a" "a < 2 powi k" by linarith+
    then show ?thesis by (simp add: e a_def)
  next
    case False
    define b where "b = 1 / a"
    from False a_pos have b1: "1 \<le> b" by (simp add: b_def)
    define n where "n = nat \<lfloor>b\<rfloor>"
    define k where "k = int (floorlog 2 n)"
    from nat_floor_bounds [OF b1] have n: "0 < n" "real n \<le> b" "b < real n + 1"
      by (simp_all add: n_def)
    from floorlog2_bounds [OF n(1)] have "2 powi (k - 1) \<le> real n" "real n + 1 \<le> 2 powi k"
      by (simp_all add: k_def)
    with n have bb: "2 powi (k - 1) \<le> b" "b < 2 powi k" by linarith+
    define p where "p = (2::real) powi (k - 1)"
    have p_pos: "0 < p" by (simp add: p_def)
    have pk: "(2::real) powi k = 2 * p"
      using power_int_add [of "2::real" 1 "k - 1"] by (simp add: p_def)
    have p1: "(2::real) powi (1 - k) = 1 / p"
      using power_int_minus [of "2::real" "k - 1"] by (simp add: p_def field_simps)
    have p2: "(2::real) powi (- k) = 1 / (2 * p)"
      using power_int_minus [of "2::real" k] by (simp add: pk field_simps)
    have p3: "(2::real) powi (1 - k + 1) = 2 / p"
      using power_int_add [of "2::real" 1 "1 - k"] by (simp add: p1)
    have p3': "(2::real) powi (2 - k) = 2 / p"
      using p3 by (simp add: algebra_simps)
    have p4: "(2::real) powi (- k + 1) = 1 / p"
      using p1 by (simp add: add.commute)
    from bb have "p \<le> 1 / a" "1 / a < 2 * p"
      by (simp_all only: p_def [symmetric] pk b_def)
    with a_pos have up: "a * p \<le> 1" and down: "1 < a * (2 * p)"
      by (simp_all add: field_simps)
    show ?thesis
    proof (cases "a * p = 1")
      case True
      with False have e: "binaryExponent x = 1 - k"
        by (simp add: binaryExponent_def Let_def a_def b_def n_def k_def p_def)
      from True p_pos have eq: "a = 1 / p" by (simp add: field_simps)
      from p_pos have "1 / p < 2 / p" by (simp add: divide_strict_right_mono)
      with eq have "2 powi (1 - k) \<le> a" "a < 2 powi (1 - k + 1)" by (simp_all only: p1 p3)
      then show ?thesis by (simp only: e a_def [symmetric])
    next
      case neq: False
      with False have e: "binaryExponent x = - k"
        by (simp add: binaryExponent_def Let_def a_def b_def n_def k_def p_def)
      from up neq have "a * p < 1" by simp
      with p_pos have hi: "a < 1 / p" by (simp add: field_simps)
      from down p_pos have lo: "1 / (2 * p) < a" by (simp add: field_simps)
      from lo hi have "2 powi (- k) \<le> a" "a < 2 powi (- k + 1)" by (simp_all only: p2 p4)
      then show ?thesis by (simp only: e a_def [symmetric])
    qed
  qed
qed

lemma two_powi_split: "(2::real) powi e = 2 ^ 52 * 2 powi (e - 52)"
proof -
  have "(2::real) powi (52 + (e - 52)) = 2 powi 52 * 2 powi (e - 52)"
    by (rule power_int_add) simp
  moreover have "(2::real) powi 52 = 2 ^ 52"
    using power_int_of_nat [of "2::real" 52] by simp
  ultimately show ?thesis by simp
qed

lemma two_powi_less_cancel:
  assumes "(2::real) powi a < 2 powi b"
  shows "a < b"
proof (rule ccontr)
  assume "\<not> a < b"
  then have "b \<le> a" by simp
  then have "(2::real) powi b \<le> 2 powi a" by (intro power_int_increasing) simp_all
  with assms show False by simp
qed

lemma toDouble_pos_bounds:
  assumes "0 < x"
  shows "2 powi (binaryExponent x) \<le> toDouble x \<and>
         toDouble x \<le> 2 powi (binaryExponent x + 1)"
proof -
  define e where "e = binaryExponent x"
  define u where "u = (2::real) powi (e - 52)"
  have u_pos: "0 < u" by (simp add: u_def)
  from assms binaryExponent_bounds [of x]
  have b: "2 powi e \<le> x" "x < 2 powi (e + 1)" by (simp_all add: e_def)
  have lo_eq: "(2::real) powi e = 2 ^ 52 * u"
    unfolding u_def by (rule two_powi_split)
  have hi_eq: "(2::real) powi (e + 1) = 2 ^ 53 * u"
    using two_powi_split [of "e + 1"] power_int_add [of "2::real" 1 "e - 52"]
    by (simp add: u_def algebra_simps)
  from b(1) have "2 ^ 52 * u \<le> x" by (simp only: lo_eq)
  with u_pos have "2 ^ 52 \<le> x / u" by (simp add: field_simps)
  then have "of_int (2 ^ 52) \<le> x / u" by simp
  then have "roundHalfEven (of_int (2 ^ 52)) \<le> roundHalfEven (x / u)"
    by (rule roundHalfEven_mono)
  then have lo: "2 ^ 52 \<le> roundHalfEven (x / u)"
    by (simp only: roundHalfEven_of_int)
  from b(2) have "x \<le> 2 ^ 53 * u" by (simp only: hi_eq)
  with u_pos have "x / u \<le> 2 ^ 53" by (simp add: field_simps)
  then have "x / u \<le> of_int (2 ^ 53)" by simp
  then have "roundHalfEven (x / u) \<le> roundHalfEven (of_int (2 ^ 53))"
    by (rule roundHalfEven_mono)
  then have hi: "roundHalfEven (x / u) \<le> 2 ^ 53"
    by (simp only: roundHalfEven_of_int)
  have td: "toDouble x = of_int (roundHalfEven (x / u)) * u"
    using assms by (simp add: toDouble_def Let_def u_def e_def)
  from lo have "(of_int (2 ^ 52) :: real) \<le> of_int (roundHalfEven (x / u))"
    by (simp only: of_int_le_iff)
  then have "2 ^ 52 * u \<le> of_int (roundHalfEven (x / u)) * u"
    using u_pos by (intro mult_right_mono) simp_all
  moreover from hi have "(of_int (roundHalfEven (x / u)) :: real) \<le> of_int (2 ^ 53)"
    by (simp only: of_int_le_iff)
  then have "of_int (roundHalfEven (x / u)) * u \<le> 2 ^ 53 * u"
    using u_pos by (intro mult_right_mono) simp_all
  ultimately show ?thesis
    unfolding e_def [symmetric] by (simp only: td lo_eq hi_eq)
qed

lemma toDouble_pos: "0 < x \<Longrightarrow> 0 < toDouble x"
proof -
  assume "0 < x"
  then have "2 powi (binaryExponent x) \<le> toDouble x" by (simp add: toDouble_pos_bounds)
  moreover have "(0::real) < 2 powi (binaryExponent x)" by simp
  ultimately show ?thesis by linarith
qed

lemma toDouble_nonpos:
  assumes "x \<le> 0"
  shows "toDouble x \<le> 0"
proof (cases "x = 0")
  case True
  then show ?thesis by (simp add: toDouble_def)
next
  case False
  define u where "u = (2::real) powi (binaryExponent x - 52)"
  have u_pos: "0 < u" by (simp add: u_def)
  from assms u_pos have "x / u \<le> of_int 0" by (simp add: field_simps)
  then have "roundHalfEven (x / u) \<le> roundHalfEven (of_int 0)" by (rule roundHalfEven_mono)
  then have "roundHalfEven (x / u) \<le> 0" by (simp only: roundHalfEven_of_int)
  then have "(of_int (roundHalfEven (x / u)) :: real) \<le> 0" by simp
  with u_pos have "of_int (roundHalfEven (x / u)) * u \<le> 0"
    by (simp add: mult_le_0_iff)
  with False show ?thesis by (simp add: toDouble_def Let_def u_def)
qed

lemma toDouble_mono_pos:
  assumes "0 < x" "x \<le> y"
  shows "toDouble x \<le> toDouble y"
proof -
  from assms have y: "0 < y" by simp
  define ex where "ex = binaryExponent x"
  define ey where "ey = binaryExponent y"
  from assms(1) binaryExponent_bounds [of x] have bx: "2 powi ex \<le> x" "x < 2 powi (ex + 1)"
    by (simp_all add: ex_def)
  from y binaryExponent_bounds [of y] have bye: "2 powi ey \<le> y" "y < 2 powi (ey + 1)"
    by (simp_all add: ey_def)
  from bx(1) assms(2) bye(2) have "(2::real) powi ex < 2 powi (ey + 1)" by linarith
  then have "ex < ey + 1" by (rule two_powi_less_cancel)
  then have le: "ex \<le> ey" by simp
  show ?thesis
  proof (cases "ex = ey")
    case True
    define u where "u = (2::real) powi (ex - 52)"
    have u_pos: "0 < u" by (simp add: u_def)
    from assms(2) u_pos have "x / u \<le> y / u" by (simp add: divide_right_mono)
    then have "roundHalfEven (x / u) \<le> roundHalfEven (y / u)" by (rule roundHalfEven_mono)
    then have "(of_int (roundHalfEven (x / u)) :: real) \<le> of_int (roundHalfEven (y / u))"
      by (simp only: of_int_le_iff)
    then have "of_int (roundHalfEven (x / u)) * u \<le> of_int (roundHalfEven (y / u)) * u"
      using u_pos by (intro mult_right_mono) simp_all
    moreover have "toDouble x = of_int (roundHalfEven (x / u)) * u"
      using assms(1) by (simp add: toDouble_def Let_def u_def ex_def)
    moreover have "toDouble y = of_int (roundHalfEven (y / u)) * u"
      using y True by (simp add: toDouble_def Let_def u_def ey_def)
    ultimately show ?thesis by simp
  next
    case False
    with le have "ex + 1 \<le> ey" by simp
    then have "(2::real) powi (ex + 1) \<le> 2 powi ey" by (intro power_int_increasing) simp_all
    moreover from assms(1) have "toDouble x \<le> 2 powi (ex + 1)"
      by (simp add: toDouble_pos_bounds ex_def)
    moreover from y have "2 powi ey \<le> toDouble y"
      by (simp add: toDouble_pos_bounds ey_def)
    ultimately show ?thesis by linarith
  qed
qed

lemma toDouble_le_double:
  assumes "x \<le> y" "0 < y" "toDouble y = y"
  shows "toDouble x \<le> y"
proof (cases "0 < x")
  case True
  from True assms(1) have "toDouble x \<le> toDouble y" by (rule toDouble_mono_pos)
  with assms(3) show ?thesis by simp
next
  case False
  then have "toDouble x \<le> 0" by (intro toDouble_nonpos) simp
  with assms(2) show ?thesis by linarith
qed

lemma toDouble_1: "toDouble 1 = 1"
  by code_simp

lemma toDouble_100: "toDouble 100 = 100"
  by code_simp

section \<open>Properties of the formulas\<close>

lemma max_round_commute: "max 0 (round (x::real)) = round (max 0 x)"
proof (cases "x \<le> 0")
  case True
  then have "round x \<le> round (0::real)" by (rule round_mono)
  with True show ?thesis by (simp add: max_def)
next
  case False
  then have "round (0::real) \<le> round x" by (intro round_mono) simp
  with False show ?thesis by (simp add: max_def)
qed

lemma accuracy_double_le_100:
  assumes "0 < t" "0 \<le> e" "toDouble t = t"
  shows "toDouble (toDouble (toDouble (t - e) / t) * 100) \<le> 100"
proof -
  from assms have "toDouble (t - e) \<le> t"
    by (intro toDouble_le_double) simp_all
  with assms(1) have "toDouble (t - e) / t \<le> 1" by (simp add: field_simps)
  then have "toDouble (toDouble (t - e) / t) \<le> 1"
    by (intro toDouble_le_double toDouble_1) simp_all
  then have "toDouble (toDouble (t - e) / t) * 100 \<le> 100" by simp
  then show ?thesis
    by (intro toDouble_le_double toDouble_100) simp_all
qed

text \<open>
  Claim C5 gives the value as \<open>round (max 0 ((t - e) / t * 100))\<close>. Read as exact
  arithmetic this is not what the code returns: at 40 characters and 17 errors the exact
  quotient is 57.5, which rounds to 58, and the three double operations of the code give
  a number just below 57.5, which rounds to 57.
\<close>

theorem calculateAccuracy_exact_counterexample:
  "(0::real) < 40 \<and> (0::real) \<le> 17 \<and> calculateAccuracy 40 17 = Inr 57 \<and>
   round (max 0 ((40 - 17) / 40 * 100 :: real)) = 58"
  by code_simp

text \<open>
  Claim C5, amended. \<open>calculateAccuracy t e\<close> fails when \<open>t = 0\<close>; for every double
  \<open>t > 0\<close> and every \<open>e \<ge> 0\<close> it succeeds with a value between 0 and 100 that is
  \<open>round (max 0 x)\<close>, where \<open>x\<close> is \<open>(t - e) / t * 100\<close> computed in doubles, each of the
  three operations rounded.
\<close>

theorem calculateAccuracy_clamped:
  "calculateAccuracy 0 e = Inl (TimingError ''Total characters must be positive'') \<and>
   (0 < t \<and> 0 \<le> e \<and> toDouble t = t \<longrightarrow>
      (\<exists>v. calculateAccuracy t e = Inr v \<and> 0 \<le> v \<and> v \<le> 100 \<and>
           v = round (max 0 (toDouble (toDouble (toDouble (t - e) / t) * 100)))))"
proof (intro conjI impI)
  show "calculateAccuracy 0 e = Inl (TimingError ''Total characters must be positive'')"
    by (simp add: calculateAccuracy_def)
next
  assume h: "0 < t \<and> 0 \<le> e \<and> toDouble t = t"
  let ?x = "toDouble (toDouble (toDouble (t - e) / t) * 100)"
  from h have "?x \<le> 100" by (intro accuracy_double_le_100) simp_all
  then have "round ?x \<le> round (100::real)" by (rule round_mono)
  then have le: "max 0 (round ?x) \<le> 100" by simp
  have ge: "0 \<le> max 0 (round ?x)" by simp
  have eq: "max 0 (round ?x) = round (max 0 ?x)" by (rule max_round_commute)
  have "calculateAccuracy t e = Inr (max 0 (round ?x))"
    using h by (simp add: calculateAccuracy_def)
  with le ge eq show "\<exists>v. calculateAccuracy t e = Inr v \<and> 0 \<le> v \<and> v \<le> 100 \<and> v = round (max 0 ?x)"
    by blast
qed

theorem calculateAccuracy_clamped_witness:
  "(0::real) < 100 \<and> (0::real) \<le> 10 \<and> toDouble 100 = 100 \<and> calculateAccuracy 100 10 = Inr 90"
proof -
  have h: "(0::real) < 100 \<and> (0::real) \<le> 10 \<and> toDouble 100 = 100"
    by (simp add: toDouble_100)
  have val: "round (max 0 (toDouble (toDouble (toDouble (100 - 10) / 100) * 100))) = 90"
    by code_simp
  from calculateAccuracy_clamped [of 10 100] h
  obtain v where "calculateAccuracy 100 10 = Inr v"
    and "v = round (max 0 (toDouble (toDouble (toDouble (100 - 10) / 100) * 100)))"
    by blast
  with val h show ?thesis by simp
qed

text \<open>
  Claim C6 gives the value as \<open>round ((c / 5) / (d / 60000))\<close>. Read as exact arithmetic
  this is not what the code returns: at 3 characters in 24000 ms the exact quotient is
  1.5, which rounds to 2, and the three double divisions of the code give a number just
  below 1.5, which rounds to 1.
\<close>

theorem calculateWPM_exact_counterexample:
  "(0::real) < 24000 \<and> (3::real) \<noteq> 0 \<and> calculateWPM 3 24000 = Inr 1 \<and>
   round ((3 / 5) / (24000 / 60000) :: real) = 2"
  by code_simp

text \<open>
  Claim C6, amended. \<open>calculateWPM c d\<close> fails with the duration error for every
  \<open>d \<le> 0\<close>; for every \<open>d > 0\<close> it returns 0 when \<open>c = 0\<close> (the branch that returns before
  the division) and otherwise \<open>round q\<close>, where \<open>q\<close> is \<open>(c / 5) / (d / 60000)\<close> computed in
  doubles, each of the three divisions rounded.
\<close>

theorem calculateWPM_cases:
  "(d \<le> 0 \<longrightarrow> calculateWPM c d = Inl (TimingError ''Duration must be positive'')) \<and>
   (0 < d \<longrightarrow> calculateWPM 0 d = Inr 0 \<and>
      (c \<noteq> 0 \<longrightarrow>
         calculateWPM c d = Inr (round (toDouble (toDouble (c / 5) / toDouble (d / 60000))))))"
  by (simp add: calculateWPM_def CHARS_PER_WORD_def)

theorem calculateWPM_cases_witness:
  "(0::real) \<le> 0 \<and> calculateWPM 50 0 = Inl (TimingError ''Duration must be positive'') \<and>
   (0::real) < 60000 \<and> calculateWPM 0 60000 = Inr 0 \<and>
   (50::real) \<noteq> 0 \<and> calculateWPM 50 60000 = Inr 10"
proof -
  have a: "calculateWPM 50 0 = Inl (TimingError ''Duration must be positive'')"
    using calculateWPM_cases [of 0 50] by simp
  have b: "calculateWPM 0 60000 = Inr 0 \<and>
           calculateWPM 50 60000
             = Inr (round (toDouble (toDouble (50 / 5) / toDouble (60000 / 60000))))"
    using calculateWPM_cases [of 60000 50] by simp
  have val: "round (toDouble (toDouble (50 / 5) / toDouble (60000 / 60000))) = 10"
    by code_simp
  from a b val show ?thesis by simp
qed

text \<open>
  Claim C7. At a fixed duration \<open>d > 0\<close>, \<open>calculateWPM\<close> does not decrease when the
  character count grows from \<open>c1 > 0\<close> to \<open>c2 \<ge> c1\<close>; at a fixed count \<open>c > 0\<close> it does
  not increase when the duration grows from \<open>d1 > 0\<close> to \<open>d2 \<ge> d1\<close>. Both calls succeed
  in each case.
\<close>

theorem calculateWPM_monotone:
  "(0 < d \<and> 0 < c1 \<and> c1 \<le> c2 \<longrightarrow>
      (\<exists>v1 v2. calculateWPM c1 d = Inr v1 \<and> calculateWPM c2 d = Inr v2 \<and> v1 \<le> v2)) \<and>
   (0 < c \<and> 0 < d1 \<and> d1 \<le> d2 \<longrightarrow>
      (\<exists>w1 w2. calculateWPM c d1 = Inr w1 \<and> calculateWPM c d2 = Inr w2 \<and> w2 \<le> w1))"
proof (intro conjI impI)
  assume h: "0 < d \<and> 0 < c1 \<and> c1 \<le> c2"
  define m where "m = toDouble (d / 60000)"
  from h have m: "0 < m" unfolding m_def by (intro toDouble_pos) simp
  from h have w: "toDouble (c1 / 5) \<le> toDouble (c2 / 5)"
    by (intro toDouble_mono_pos) simp_all
  from h have w1: "0 < toDouble (c1 / 5)" by (intro toDouble_pos) simp
  from w m have "toDouble (c1 / 5) / m \<le> toDouble (c2 / 5) / m"
    by (simp add: divide_right_mono)
  moreover from w1 m have "0 < toDouble (c1 / 5) / m" by simp
  ultimately have "toDouble (toDouble (c1 / 5) / m) \<le> toDouble (toDouble (c2 / 5) / m)"
    by (intro toDouble_mono_pos)
  then have "round (toDouble (toDouble (c1 / 5) / m)) \<le> round (toDouble (toDouble (c2 / 5) / m))"
    by (rule round_mono)
  with h show "\<exists>v1 v2. calculateWPM c1 d = Inr v1 \<and> calculateWPM c2 d = Inr v2 \<and> v1 \<le> v2"
    by (simp add: calculateWPM_def CHARS_PER_WORD_def m_def)
next
  assume h: "0 < c \<and> 0 < d1 \<and> d1 \<le> d2"
  define w where "w = toDouble (c / 5)"
  from h have w: "0 < w" unfolding w_def by (intro toDouble_pos) simp
  from h have m: "toDouble (d1 / 60000) \<le> toDouble (d2 / 60000)"
    by (intro toDouble_mono_pos) simp_all
  from h have m1: "0 < toDouble (d1 / 60000)" by (intro toDouble_pos) simp
  with m have m2: "0 < toDouble (d2 / 60000)" by linarith
  from w m m1 have "w / toDouble (d2 / 60000) \<le> w / toDouble (d1 / 60000)"
    by (intro divide_left_mono) simp_all
  moreover from w m2 have "0 < w / toDouble (d2 / 60000)" by simp
  ultimately have "toDouble (w / toDouble (d2 / 60000)) \<le> toDouble (w / toDouble (d1 / 60000))"
    by (intro toDouble_mono_pos)
  then have "round (toDouble (w / toDouble (d2 / 60000)))
             \<le> round (toDouble (w / toDouble (d1 / 60000)))"
    by (rule round_mono)
  with h show "\<exists>w1 w2. calculateWPM c d1 = Inr w1 \<and> calculateWPM c d2 = Inr w2 \<and> w2 \<le> w1"
    by (simp add: calculateWPM_def CHARS_PER_WORD_def w_def)
qed

theorem calculateWPM_monotone_witness:
  "(0::real) < 60000 \<and> (0::real) < 50 \<and> (50::real) \<le> 250 \<and>
   calculateWPM 50 60000 = Inr 10 \<and> calculateWPM 250 60000 = Inr 50 \<and> (10::int) \<le> 50 \<and>
   (0::real) < 30000 \<and> (30000::real) \<le> 60000 \<and>
   calculateWPM 50 30000 = Inr 20 \<and> (10::int) \<le> 20"
proof -
  have h1: "(0::real) < 60000 \<and> (0::real) < 50 \<and> (50::real) \<le> 250" by simp
  have h2: "(0::real) < 50 \<and> (0::real) < 30000 \<and> (30000::real) \<le> 60000" by simp
  have vals: "calculateWPM 50 60000 = Inr 10" "calculateWPM 250 60000 = Inr 50"
    "calculateWPM 50 30000 = Inr 20"
    by code_simp+
  from calculateWPM_monotone [of 60000 50 250 50 30000 60000] h1 h2
  have "(\<exists>v1 v2. calculateWPM 50 60000 = Inr v1 \<and> calculateWPM 250 60000 = Inr v2 \<and> v1 \<le> v2) \<and>
        (\<exists>w1 w2. calculateWPM 50 30000 = Inr w1 \<and> calculateWPM 50 60000 = Inr w2 \<and> w2 \<le> w1)"
    by blast
  then show ?thesis by (simp add: vals)
qed

section \<open>Properties of the word classification\<close>

text \<open>
  Claim C9 says that \<open>pink\<close> is typed with neither hand alone. The letters p, i, n and k
  are all in \<open>RIGHT_HAND_KEYS\<close>, so \<open>isSingleHandWord\<close> returns a hand for it.
\<close>

theorem isSingleHandWord_pink_counterexample:
  "isSingleHandWord ''pink'' \<noteq> None"
  by code_simp

text \<open>
  Claim C9, amended. \<open>isSingleHandWord\<close> classifies \<open>stare\<close> as a left-hand word and
  \<open>pink\<close> as a right-hand word.
\<close>

theorem isSingleHandWord_stare_pink:
  "isSingleHandWord ''stare'' = Some Left \<and> isSingleHandWord ''pink'' = Some Right"
  by code_simp

section \<open>Properties of the keystroke handler\<close>

lemmas updater_defs =
  startTimerUpdater_def backspaceUpdater_def characterUpdater_def
  TimingSession_start_def TimingSession_stop_def TimingSession_addCharacter_def

lemmas run_defs =
  handleKeyDown_def typeKeys_def initialState_def TimingSession_create_def
  TimingSession_getDuration_def

lemma handleKeyDown_complete: "isComplete s \<Longrightarrow> handleKeyDown e s = s"
  by (cases e) (simp add: handleKeyDown_def)

lemma handleKeyDown_backspace:
  assumes "\<not> isComplete s" "0 < currentPosition s"
  shows "handleKeyDown (''Backspace'', t1, t2) s =
           (startTimerUpdater t1 s)\<lparr>currentPosition := currentPosition s - 1,
              typedChars := (typedChars s)(currentPosition s - 1 := None)\<rparr>"
  using assms by (simp add: handleKeyDown_def updater_defs)

lemma handleKeyDown_character:
  assumes "\<not> isComplete s" "length key = 1" "currentPosition s + 1 < length (text' s)"
  shows "handleKeyDown (key, t1, t2) s =
           (startTimerUpdater t1 s)\<lparr>currentPosition := currentPosition s + 1,
              typedChars := (typedChars s)(currentPosition s \<mapsto> (key = [text' s ! currentPosition s])),
              session := TimingSession_addCharacter (session (startTimerUpdater t1 s))
                           (key = [text' s ! currentPosition s])\<rparr>"
  using assms by (auto simp add: handleKeyDown_def updater_defs Let_def)

lemma handleKeyDown_last_character:
  assumes "\<not> isComplete s" "length key = 1" "currentPosition s + 1 = length (text' s)"
  shows "handleKeyDown (key, t1, t2) s =
           (startTimerUpdater t1 s)\<lparr>currentPosition := currentPosition s + 1,
              typedChars := (typedChars s)(currentPosition s \<mapsto> (key = [text' s ! currentPosition s])),
              session := TimingSession_stop t2
                           (TimingSession_addCharacter (session (startTimerUpdater t1 s))
                              (key = [text' s ! currentPosition s])),
              isComplete := True\<rparr>"
  using assms by (auto simp add: handleKeyDown_def updater_defs Let_def)

subsection \<open>What a keystroke leaves unchanged\<close>

text \<open>
  Claim C10. A keystroke event, on any state and with any key, leaves the word list,
  the text, the mode and the three flags of focus, loading and fetch error as they were:
  only the cursor, the log, the timing session and the completion flag can change.
\<close>

theorem handleKeyDown_frame:
  "words (handleKeyDown e s) = words s \<and> text' (handleKeyDown e s) = text' s \<and>
   mode (handleKeyDown e s) = mode s \<and> isFocused (handleKeyDown e s) = isFocused s \<and>
   isLoading (handleKeyDown e s) = isLoading s \<and> fetchError (handleKeyDown e s) = fetchError s"
  by (cases e) (simp add: handleKeyDown_def updater_defs Let_def)

subsection \<open>Starting the timer\<close>

text \<open>
  Claim C8 says that \<open>start\<close> keeps the \<open>startTime\<close> of a running session. It does not:
  \<open>TimingSession.start\<close> has no guard and writes the clock reading in every case. Here a
  session running since time 0 is started again at time 5.
\<close>

theorem TimingSession_start_running_counterexample:
  "isRunning \<lparr>isRunning = True, startTime = Some 0, endTime = None,
               characterCount = 3, errorCount = 0\<rparr> \<and>
   startTime (TimingSession_start 5 \<lparr>isRunning = True, startTime = Some 0, endTime = None,
               characterCount = 3, errorCount = 0\<rparr>)
     \<noteq> startTime \<lparr>isRunning = True, startTime = Some 0, endTime = None,
               characterCount = 3, errorCount = 0\<rparr>"
  by (simp add: TimingSession_start_def)

text \<open>
  Claim C8, amended. \<open>TimingSession.start\<close> always sets \<open>startTime\<close> to the clock
  reading. The guard is in the caller: on a state whose session is running, the updater
  that starts the timer returns the state as it is, and a keystroke event leaves
  \<open>startTime\<close> unchanged.
\<close>

theorem start_resets_core_guards:
  "startTime (TimingSession_start now ts) = Some now \<and>
   (isRunning (session s) \<longrightarrow>
      startTimerUpdater now s = s \<and>
      startTime (session (handleKeyDown e s)) = startTime (session s))"
  by (cases e) (simp add: handleKeyDown_def updater_defs Let_def)

theorem start_resets_core_guards_witness:
  "isRunning (session (handleKeyDown (''a'', 7, 8) (initialState ModeAll [''ab'', ''cd''] True))) \<and>
   startTime (session (handleKeyDown (''b'', 9, 10)
     (handleKeyDown (''a'', 7, 8) (initialState ModeAll [''ab'', ''cd''] True)))) = Some 7"
proof -
  let ?S1 = "handleKeyDown (''a'', 7, 8) (initialState ModeAll [''ab'', ''cd''] True)"
  have h: "isRunning (session ?S1)" "startTime (session ?S1) = Some 7"
    by (simp_all add: run_defs updater_defs Let_def)
  from start_resets_core_guards [where s = ?S1 and e = "(''b'', 9, 10)"] h show ?thesis
    by simp
qed

subsection \<open>Sequences of keystroke events\<close>

lemma typeKeys_Nil: "typeKeys [] s = s"
  by (simp add: typeKeys_def)

lemma typeKeys_Cons: "typeKeys (e # es) s = typeKeys es (handleKeyDown e s)"
  by (simp add: typeKeys_def)

lemma typeKeys_snoc: "typeKeys (es @ [e]) s = handleKeyDown e (typeKeys es s)"
  by (simp add: typeKeys_def)

subsection \<open>The log holds the positions behind the cursor\<close>

lemma log_dom_initialState:
  "dom (typedChars (initialState m ws c)) = {..<currentPosition (initialState m ws c)}"
  by (simp add: initialState_def)

lemma log_dom_backspaceUpdater:
  assumes "dom (typedChars s) = {..<currentPosition s}"
  shows "dom (typedChars (backspaceUpdater s)) = {..<currentPosition (backspaceUpdater s)}"
proof (cases "0 < currentPosition s")
  case True
  then obtain n where n: "currentPosition s = Suc n" by (cases "currentPosition s") auto
  have "{..<Suc n} - {n} = {..<n}" by auto
  with assms n show ?thesis
    by (simp add: backspaceUpdater_def)
next
  case False
  with assms show ?thesis by (simp add: backspaceUpdater_def)
qed

lemma log_dom_characterUpdater:
  assumes "dom (typedChars s) = {..<currentPosition s}"
  shows "dom (typedChars (characterUpdater t key s))
           = {..<currentPosition (characterUpdater t key s)}"
  using assms by (auto simp add: characterUpdater_def Let_def lessThan_Suc)

lemma log_dom_handleKeyDown:
  assumes "dom (typedChars s) = {..<currentPosition s}"
  shows "dom (typedChars (handleKeyDown e s)) = {..<currentPosition (handleKeyDown e s)}"
proof (cases e)
  case (fields key t1 t2)
  let ?started = "startTimerUpdater t1 s"
  from assms have started: "dom (typedChars ?started) = {..<currentPosition ?started}"
    by (simp add: startTimerUpdater_def)
  show ?thesis
  proof (cases "isComplete s")
    case True
    with assms show ?thesis by (simp add: handleKeyDown_complete)
  next
    case False
    with fields started show ?thesis
      using log_dom_backspaceUpdater [OF started] log_dom_characterUpdater [OF started]
      by (simp add: handleKeyDown_def Let_def)
  qed
qed

lemma log_dom_typeKeys:
  "dom (typedChars s) = {..<currentPosition s} \<Longrightarrow>
   dom (typedChars (typeKeys es s)) = {..<currentPosition (typeKeys es s)}"
proof (induction es arbitrary: s)
  case Nil
  then show ?case by (simp add: typeKeys_Nil)
next
  case (Cons e es)
  from Cons.prems have "dom (typedChars (handleKeyDown e s)) = {..<currentPosition (handleKeyDown e s)}"
    by (rule log_dom_handleKeyDown)
  then show ?case by (simp add: typeKeys_Cons Cons.IH)
qed

text \<open>
  Claim C3. In every state reached from an initial state by keystroke events, a position
  has an entry in \<open>typedChars\<close> exactly when it is below the cursor. A backspace that
  moves the cursor deletes the entry of the position it moves back to, and a character
  that is accepted records one entry, at the old cursor position, and moves the cursor
  one forward.
\<close>

theorem log_iff_behind_cursor:
  "(\<forall>p. (typedChars (typeKeys es (initialState m ws c)) p \<noteq> None)
          = (p < currentPosition (typeKeys es (initialState m ws c)))) \<and>
   (\<not> isComplete s \<and> 0 < currentPosition s \<longrightarrow>
      typedChars (handleKeyDown (''Backspace'', t1, t2) s)
        = (typedChars s)(currentPosition s - 1 := None) \<and>
      currentPosition (handleKeyDown (''Backspace'', t1, t2) s) = currentPosition s - 1) \<and>
   (\<not> isComplete s \<and> length key = 1 \<and> currentPosition s < length (text' s) \<longrightarrow>
      typedChars (handleKeyDown (key, t1, t2) s)
        = (typedChars s)(currentPosition s \<mapsto> (key = [text' s ! currentPosition s])) \<and>
      currentPosition (handleKeyDown (key, t1, t2) s) = currentPosition s + 1)"
proof (intro conjI allI impI)
  fix p
  have "dom (typedChars (typeKeys es (initialState m ws c)))
          = {..<currentPosition (typeKeys es (initialState m ws c))}"
    by (rule log_dom_typeKeys) (rule log_dom_initialState)
  then have "(p \<in> dom (typedChars (typeKeys es (initialState m ws c))))
             = (p \<in> {..<currentPosition (typeKeys es (initialState m ws c))})"
    by simp
  then show "(typedChars (typeKeys es (initialState m ws c)) p \<noteq> None)
             = (p < currentPosition (typeKeys es (initialState m ws c)))"
    by (simp add: dom_def)
next
  assume "\<not> isComplete s \<and> 0 < currentPosition s"
  then show "typedChars (handleKeyDown (''Backspace'', t1, t2) s)
        = (typedChars s)(currentPosition s - 1 := None)"
    by (simp add: handleKeyDown_def updater_defs)
next
  assume "\<not> isComplete s \<and> 0 < currentPosition s"
  then show "currentPosition (handleKeyDown (''Backspace'', t1, t2) s) = currentPosition s - 1"
    by (simp add: handleKeyDown_def updater_defs)
next
  assume "\<not> isComplete s \<and> length key = 1 \<and> currentPosition s < length (text' s)"
  then show "typedChars (handleKeyDown (key, t1, t2) s)
        = (typedChars s)(currentPosition s \<mapsto> (key = [text' s ! currentPosition s]))"
    by (auto simp add: handleKeyDown_def updater_defs Let_def)
next
  assume "\<not> isComplete s \<and> length key = 1 \<and> currentPosition s < length (text' s)"
  then show "currentPosition (handleKeyDown (key, t1, t2) s) = currentPosition s + 1"
    by (auto simp add: handleKeyDown_def updater_defs Let_def)
qed

theorem log_iff_behind_cursor_witness:
  "\<not> isComplete (handleKeyDown (''x'', 0, 0) (initialState ModeAll [''ab'', ''cd''] True)) \<and>
   0 < currentPosition (handleKeyDown (''x'', 0, 0) (initialState ModeAll [''ab'', ''cd''] True)) \<and>
   length ''b'' = 1 \<and>
   currentPosition (handleKeyDown (''x'', 0, 0) (initialState ModeAll [''ab'', ''cd''] True))
     < length (text' (handleKeyDown (''x'', 0, 0) (initialState ModeAll [''ab'', ''cd''] True))) \<and>
   typedChars (handleKeyDown (''Backspace'', 1, 1)
     (handleKeyDown (''x'', 0, 0) (initialState ModeAll [''ab'', ''cd''] True))) 0 = None \<and>
   currentPosition (handleKeyDown (''Backspace'', 1, 1)
     (handleKeyDown (''x'', 0, 0) (initialState ModeAll [''ab'', ''cd''] True))) = 0 \<and>
   typedChars (handleKeyDown (''b'', 1, 1)
     (handleKeyDown (''x'', 0, 0) (initialState ModeAll [''ab'', ''cd''] True))) 1 = Some True \<and>
   currentPosition (handleKeyDown (''b'', 1, 1)
     (handleKeyDown (''x'', 0, 0) (initialState ModeAll [''ab'', ''cd''] True))) = 2 \<and>
   currentPosition (typeKeys [(''x'', 0, 0), (''Backspace'', 1, 1), (''a'', 2, 2)]
     (initialState ModeAll [''ab'', ''cd''] True)) = 1 \<and>
   typedChars (typeKeys [(''x'', 0, 0), (''Backspace'', 1, 1), (''a'', 2, 2)]
     (initialState ModeAll [''ab'', ''cd''] True)) 0 \<noteq> None \<and>
   typedChars (typeKeys [(''x'', 0, 0), (''Backspace'', 1, 1), (''a'', 2, 2)]
     (initialState ModeAll [''ab'', ''cd''] True)) 1 = None"
proof -
  let ?S0 = "initialState ModeAll [''ab'', ''cd''] True"
  let ?S1 = "handleKeyDown (''x'', 0, 0) ?S0"
  let ?es = "[(''x'', 0, 0), (''Backspace'', 1, 1), (''a'', 2, 2)]"
  have S1: "\<not> isComplete ?S1" "currentPosition ?S1 = 1" "text' ?S1 = ''ab cd''"
    "typedChars ?S1 = [0 \<mapsto> False]"
    by (simp_all add: run_defs updater_defs Let_def)
  have pos: "currentPosition (typeKeys ?es ?S0) = 1"
    by (simp add: run_defs updater_defs Let_def)
  note T = log_iff_behind_cursor [where es = ?es and m = ModeAll and ws = "[''ab'', ''cd'']"
      and c = True and s = ?S1 and ?t1.0 = 1 and ?t2.0 = 1 and key = "''b''"]
  from T have inv: "\<And>p. (typedChars (typeKeys ?es ?S0) p \<noteq> None) = (p < currentPosition (typeKeys ?es ?S0))"
    by blast
  from T S1 have bs: "typedChars (handleKeyDown (''Backspace'', 1, 1) ?S1) = (typedChars ?S1)(currentPosition ?S1 - 1 := None)"
    "currentPosition (handleKeyDown (''Backspace'', 1, 1) ?S1) = currentPosition ?S1 - 1"
    by simp_all
  from T S1 have ch: "typedChars (handleKeyDown (''b'', 1, 1) ?S1) = (typedChars ?S1)(currentPosition ?S1 \<mapsto> (''b'' = [text' ?S1 ! currentPosition ?S1]))"
    "currentPosition (handleKeyDown (''b'', 1, 1) ?S1) = currentPosition ?S1 + 1"
    by simp_all
  show ?thesis
    using inv [of 0] inv [of 1] pos
    by (simp add: bs ch S1)
qed

subsection \<open>A character followed by a backspace\<close>

text \<open>
  Claim C2 says that a character followed by a backspace restores cursor and log in every
  state that is not complete and has its cursor inside the text. Two states where it does
  not: at the last position the character completes the test, and the backspace that
  follows is ignored (text \<open>a\<close>, the cursor stays at 1); and where the log already has an
  entry at the cursor, the backspace deletes it.
\<close>

theorem char_then_backspace_counterexample:
  "\<not> isComplete (initialState ModeAll [''a''] True) \<and>
   currentPosition (initialState ModeAll [''a''] True)
     < length (text' (initialState ModeAll [''a''] True)) \<and>
   length ''a'' = 1 \<and>
   currentPosition (handleKeyDown (''Backspace'', 2, 3)
       (handleKeyDown (''a'', 0, 1) (initialState ModeAll [''a''] True)))
     \<noteq> currentPosition (initialState ModeAll [''a''] True) \<and>
   \<not> isComplete ((initialState ModeAll [''ab''] True)\<lparr>typedChars := [0 \<mapsto> False]\<rparr>) \<and>
   currentPosition ((initialState ModeAll [''ab''] True)\<lparr>typedChars := [0 \<mapsto> False]\<rparr>)
     < length (text' ((initialState ModeAll [''ab''] True)\<lparr>typedChars := [0 \<mapsto> False]\<rparr>)) \<and>
   typedChars (handleKeyDown (''Backspace'', 2, 3)
       (handleKeyDown (''a'', 0, 1)
          ((initialState ModeAll [''ab''] True)\<lparr>typedChars := [0 \<mapsto> False]\<rparr>))) 0
     \<noteq> typedChars ((initialState ModeAll [''ab''] True)\<lparr>typedChars := [0 \<mapsto> False]\<rparr>) 0"
  by (simp add: run_defs updater_defs Let_def)

text \<open>
  Claim C2, amended. In a state that is not complete, with the cursor at least two
  positions before the end of the text and no log entry at the cursor, a character
  followed by a backspace gives back the cursor and the log of before, and the two
  counters keep the values the character left: \<open>characterCount\<close> one more, \<open>errorCount\<close>
  one more when the character was wrong.
\<close>

theorem char_then_backspace_roundtrip:
  assumes "\<not> isComplete s"
    and "currentPosition s + 1 < length (text' s)"
    and "typedChars s (currentPosition s) = None"
    and "length key = 1"
  shows "currentPosition (handleKeyDown (''Backspace'', t3, t4) (handleKeyDown (key, t1, t2) s))
           = currentPosition s \<and>
         typedChars (handleKeyDown (''Backspace'', t3, t4) (handleKeyDown (key, t1, t2) s))
           = typedChars s \<and>
         characterCount (session (handleKeyDown (key, t1, t2) s))
           = characterCount (session s) + 1 \<and>
         errorCount (session (handleKeyDown (key, t1, t2) s))
           = errorCount (session s) + (if key = [text' s ! currentPosition s] then 0 else 1) \<and>
         characterCount (session (handleKeyDown (''Backspace'', t3, t4) (handleKeyDown (key, t1, t2) s)))
           = characterCount (session (handleKeyDown (key, t1, t2) s)) \<and>
         errorCount (session (handleKeyDown (''Backspace'', t3, t4) (handleKeyDown (key, t1, t2) s)))
           = errorCount (session (handleKeyDown (key, t1, t2) s))"
proof -
  let ?s1 = "handleKeyDown (key, t1, t2) s"
  let ?ok = "key = [text' s ! currentPosition s]"
  have s1: "?s1 = (startTimerUpdater t1 s)\<lparr>currentPosition := currentPosition s + 1,
              typedChars := (typedChars s)(currentPosition s \<mapsto> ?ok),
              session := TimingSession_addCharacter (session (startTimerUpdater t1 s)) ?ok\<rparr>"
    using assms by (simp add: handleKeyDown_character)
  have s1_facts: "\<not> isComplete ?s1" "currentPosition ?s1 = currentPosition s + 1"
    "typedChars ?s1 = (typedChars s)(currentPosition s \<mapsto> ?ok)"
    using assms by (simp_all add: s1 startTimerUpdater_def)
  have counts: "characterCount (session ?s1) = characterCount (session s) + 1"
    "errorCount (session ?s1) = errorCount (session s) + (if ?ok then 0 else 1)"
    by (simp_all add: s1 updater_defs)
  have s2: "handleKeyDown (''Backspace'', t3, t4) ?s1 =
              (startTimerUpdater t3 ?s1)\<lparr>currentPosition := currentPosition ?s1 - 1,
                 typedChars := (typedChars ?s1)(currentPosition ?s1 - 1 := None)\<rparr>"
    using s1_facts by (intro handleKeyDown_backspace) simp_all
  have log: "(typedChars s)(currentPosition s := None) = typedChars s"
    using assms(3) by (intro fun_upd_idem) simp
  have undone: "currentPosition (handleKeyDown (''Backspace'', t3, t4) ?s1) = currentPosition s"
    "typedChars (handleKeyDown (''Backspace'', t3, t4) ?s1) = typedChars s"
    by (simp_all add: s2 s1_facts log)
  have kept: "characterCount (session (handleKeyDown (''Backspace'', t3, t4) ?s1))
                = characterCount (session ?s1)"
    "errorCount (session (handleKeyDown (''Backspace'', t3, t4) ?s1)) = errorCount (session ?s1)"
    by (simp_all add: s2 startTimerUpdater_def TimingSession_start_def)
  from undone counts kept show ?thesis by simp
qed

theorem char_then_backspace_roundtrip_witness:
  "\<not> isComplete (initialState ModeAll [''ab'', ''cd''] True) \<and>
   currentPosition (initialState ModeAll [''ab'', ''cd''] True) + 1
     < length (text' (initialState ModeAll [''ab'', ''cd''] True)) \<and>
   typedChars (initialState ModeAll [''ab'', ''cd''] True)
     (currentPosition (initialState ModeAll [''ab'', ''cd''] True)) = None \<and>
   length ''x'' = 1 \<and>
   currentPosition (handleKeyDown (''Backspace'', 3, 4)
     (handleKeyDown (''x'', 1, 2) (initialState ModeAll [''ab'', ''cd''] True))) = 0 \<and>
   typedChars (handleKeyDown (''Backspace'', 3, 4)
     (handleKeyDown (''x'', 1, 2) (initialState ModeAll [''ab'', ''cd''] True))) = Map.empty \<and>
   characterCount (session (handleKeyDown (''Backspace'', 3, 4)
     (handleKeyDown (''x'', 1, 2) (initialState ModeAll [''ab'', ''cd''] True)))) = 1 \<and>
   errorCount (session (handleKeyDown (''Backspace'', 3, 4)
     (handleKeyDown (''x'', 1, 2) (initialState ModeAll [''ab'', ''cd''] True)))) = 1"
proof -
  let ?S0 = "initialState ModeAll [''ab'', ''cd''] True"
  have h: "\<not> isComplete ?S0" "currentPosition ?S0 + 1 < length (text' ?S0)"
    "typedChars ?S0 (currentPosition ?S0) = None" "length ''x'' = 1"
    by (simp_all add: initialState_def)
  have S0: "currentPosition ?S0 = 0" "typedChars ?S0 = Map.empty"
    "characterCount (session ?S0) = 0" "errorCount (session ?S0) = 0" "text' ?S0 = ''ab cd''"
    by (simp_all add: initialState_def TimingSession_create_def)
  from char_then_backspace_roundtrip [OF h, of 3 4 1 2] h show ?thesis
    by (simp add: S0)
qed

subsection \<open>Typing a whole text\<close>

lemma typeKeys_chars_advance:
  assumes "\<forall>e\<in>set es. length (fst e) = 1"
    and "\<not> isComplete s"
    and "currentPosition s + length es < length (text' s)"
  shows "\<not> isComplete (typeKeys es s) \<and>
         currentPosition (typeKeys es s) = currentPosition s + length es \<and>
         text' (typeKeys es s) = text' s"
  using assms
proof (induction es arbitrary: s)
  case Nil
  then show ?case by (simp add: typeKeys_Nil)
next
  case (Cons e es)
  obtain key t1 t2 where e: "e = (key, t1, t2)" by (cases e)
  from Cons.prems e have key: "length key = 1" by simp
  from Cons.prems have room: "currentPosition s + 1 < length (text' s)" by simp
  let ?next = "handleKeyDown e s"
  have s1: "\<not> isComplete ?next" "currentPosition ?next = currentPosition s + 1" "text' ?next = text' s"
    using Cons.prems(2) key room
    by (simp_all add: e handleKeyDown_character startTimerUpdater_def)
  have "\<not> isComplete (typeKeys es ?next) \<and>
        currentPosition (typeKeys es ?next) = currentPosition ?next + length es \<and>
        text' (typeKeys es ?next) = text' ?next"
    using Cons.prems s1 by (intro Cons.IH) simp_all
  with s1 show ?case by (simp add: typeKeys_Cons)
qed

lemma TimingSession_stop_frozen:
  "\<not> isRunning (TimingSession_stop t ts) \<and> endTime (TimingSession_stop t ts) = Some t \<and>
   TimingSession_getDuration now (TimingSession_stop t ts)
     = TimingSession_getDuration now' (TimingSession_stop t ts)"
  by (simp add: TimingSession_stop_def TimingSession_getDuration_def split: option.split)

text \<open>
  Claim C1 speaks of a text of any length \<open>N\<close>. For the empty text (no words
  drawn) \<open>N\<close> is 0, and after no keystroke the initial state is not complete:
  \<open>initialState\<close> sets \<open>isComplete\<close> to false whatever the text is.
\<close>

theorem empty_text_never_complete_counterexample:
  "length (text' (initialState ModeAll [] True)) = 0 \<and>
   length ([] :: KeyEvent list) = 0 \<and>
   \<not> isComplete (typeKeys [] (initialState ModeAll [] True))"
  by (simp add: typeKeys_def initialState_def)

text \<open>
  Claim C1, amended to texts of length \<open>N \<ge> 1\<close>. From the initial state, \<open>N\<close> keystroke
  events that each carry one character, correct or not, end in a state that is complete,
  with the cursor at \<open>N\<close> and the timing session stopped: not running, \<open>endTime\<close> set by
  the last event, and a duration that no longer depends on the clock. No shorter prefix of
  the events completes the test. Every further event returns that state unchanged, as
  every event does on every complete state.
\<close>

theorem typing_whole_text_completes:
  assumes "0 < length (joinWords ws)"
    and "length es = length (joinWords ws)"
    and "\<forall>e\<in>set es. length (fst e) = 1"
  shows "isComplete (typeKeys es (initialState m ws c)) \<and>
         currentPosition (typeKeys es (initialState m ws c)) = length (joinWords ws) \<and>
         \<not> isRunning (session (typeKeys es (initialState m ws c))) \<and>
         endTime (session (typeKeys es (initialState m ws c))) = Some (snd (snd (last es))) \<and>
         TimingSession_getDuration now (session (typeKeys es (initialState m ws c)))
           = TimingSession_getDuration now' (session (typeKeys es (initialState m ws c))) \<and>
         (\<forall>k < length es. \<not> isComplete (typeKeys (take k es) (initialState m ws c))) \<and>
         (\<forall>e. handleKeyDown e (typeKeys es (initialState m ws c))
                = typeKeys es (initialState m ws c)) \<and>
         (\<forall>s e. isComplete s \<longrightarrow> handleKeyDown e s = s)"
proof -
  let ?init = "initialState m ws c"
  have s0: "\<not> isComplete ?init" "currentPosition ?init = 0" "text' ?init = joinWords ws"
    by (simp_all add: initialState_def)
  from assms(1,2) have "es \<noteq> []" by auto
  then obtain es' e where es: "es = es' @ [e]" by (cases es rule: rev_cases) auto
  obtain key t1 t2 where e: "e = (key, t1, t2)" by (cases e)
  from assms(3) es e have key: "length key = 1" by simp
  from assms(3) es have chars': "\<forall>e\<in>set es'. length (fst e) = 1" by simp
  let ?prev = "typeKeys es' ?init"
  have s': "\<not> isComplete ?prev" "currentPosition ?prev = length es'" "text' ?prev = joinWords ws"
    using typeKeys_chars_advance [OF chars' s0(1)] assms(2) es s0 by simp_all
  have len: "length es' + 1 = length (joinWords ws)"
    using assms(2) es by simp
  have last_pos: "currentPosition ?prev + 1 = length (text' ?prev)"
    using s' len by simp
  have last_clock: "snd (snd (last es)) = t2"
    by (simp add: es e)
  let ?fin = "typeKeys es ?init"
  have s_eq: "?fin = handleKeyDown (key, t1, t2) ?prev"
    by (simp add: es e typeKeys_snoc)
  note final = handleKeyDown_last_character [OF s'(1) key last_pos, of t1 t2]
  have complete: "isComplete ?fin"
    by (simp add: s_eq final)
  have pos: "currentPosition ?fin = length (joinWords ws)"
    using s' len by (simp add: s_eq final)
  have sess: "session ?fin = TimingSession_stop t2
      (TimingSession_addCharacter (session (startTimerUpdater t1 ?prev)) (key = [text' ?prev ! currentPosition ?prev]))"
    by (simp add: s_eq final)
  have stopped: "\<not> isRunning (session ?fin)" "endTime (session ?fin) = Some (snd (snd (last es)))"
    "TimingSession_getDuration now (session ?fin) = TimingSession_getDuration now' (session ?fin)"
    using TimingSession_stop_frozen [of t2 _ now now'] by (simp_all add: sess last_clock)
  have before: "\<forall>k < length es. \<not> isComplete (typeKeys (take k es) ?init)"
  proof (intro allI impI)
    fix k assume k: "k < length es"
    have "\<forall>e\<in>set (take k es). length (fst e) = 1"
      using assms(3) by (auto dest: in_set_takeD)
    moreover have "currentPosition ?init + length (take k es) < length (text' ?init)"
      using k assms(2) s0 by simp
    ultimately show "\<not> isComplete (typeKeys (take k es) ?init)"
      using typeKeys_chars_advance [OF _ s0(1)] by blast
  qed
  have noop: "\<forall>e. handleKeyDown e ?fin = ?fin"
    using complete by (simp add: handleKeyDown_complete)
  have noop_all: "\<forall>s e. isComplete s \<longrightarrow> handleKeyDown e s = s"
    by (simp add: handleKeyDown_complete)
  from complete pos stopped before noop noop_all show ?thesis by blast
qed

theorem typing_whole_text_completes_witness:
  "0 < length (joinWords [''ab'', ''cd'']) \<and>
   length [(''a'', 1, 2), (''x'', 3, 4), ('' '', 5, 6), (''c'', 7, 8), (''q'', 9, 10 :: int)]
     = length (joinWords [''ab'', ''cd'']) \<and>
   length ''a'' = 1 \<and> length ''x'' = 1 \<and> length '' '' = 1 \<and> length ''c'' = 1 \<and>
   length ''q'' = 1 \<and>
   isComplete (typeKeys [(''a'', 1, 2), (''x'', 3, 4), ('' '', 5, 6), (''c'', 7, 8), (''q'', 9, 10)]
     (initialState ModeAll [''ab'', ''cd''] True)) \<and>
   currentPosition (typeKeys [(''a'', 1, 2), (''x'', 3, 4), ('' '', 5, 6), (''c'', 7, 8), (''q'', 9, 10)]
     (initialState ModeAll [''ab'', ''cd''] True)) = 5 \<and>
   \<not> isRunning (session (typeKeys [(''a'', 1, 2), (''x'', 3, 4), ('' '', 5, 6), (''c'', 7, 8), (''q'', 9, 10)]
     (initialState ModeAll [''ab'', ''cd''] True))) \<and>
   endTime (session (typeKeys [(''a'', 1, 2), (''x'', 3, 4), ('' '', 5, 6), (''c'', 7, 8), (''q'', 9, 10)]
     (initialState ModeAll [''ab'', ''cd''] True))) = Some 10 \<and>
   \<not> isComplete (typeKeys [(''a'', 1, 2), (''x'', 3, 4), ('' '', 5, 6), (''c'', 7, 8)]
     (initialState ModeAll [''ab'', ''cd''] True)) \<and>
   handleKeyDown (''Backspace'', 11, 12)
     (typeKeys [(''a'', 1, 2), (''x'', 3, 4), ('' '', 5, 6), (''c'', 7, 8), (''q'', 9, 10)]
        (initialState ModeAll [''ab'', ''cd''] True))
     = typeKeys [(''a'', 1, 2), (''x'', 3, 4), ('' '', 5, 6), (''c'', 7, 8), (''q'', 9, 10)]
        (initialState ModeAll [''ab'', ''cd''] True)"
proof -
  let ?es = "[(''a'', 1, 2), (''x'', 3, 4), ('' '', 5, 6), (''c'', 7, 8), (''q'', 9, 10 :: int)]"
  have h1: "0 < length (joinWords [''ab'', ''cd''])" by simp
  have h2: "length ?es = length (joinWords [''ab'', ''cd''])" by simp
  have h3: "\<forall>e\<in>set ?es. length (fst e) = 1" by simp
  note T = typing_whole_text_completes [OF h1 h2 h3, of ModeAll True 0 0]
  from T have prefix: "\<not> isComplete (typeKeys (take 4 ?es) (initialState ModeAll [''ab'', ''cd''] True))"
    by (simp del: take_Cons_numeral)
  have take4: "take 4 ?es = [(''a'', 1, 2), (''x'', 3, 4), ('' '', 5, 6), (''c'', 7, 8)]"
    by simp
  from T prefix show ?thesis
    by (simp add: take4)
qed

subsection \<open>The scenario of the text ab cd\<close>

lemma ab_cd_text: "text' (initialState m [''ab'', ''cd''] c) = ''ab cd''"
  by (simp add: initialState_def)

lemma ab_cd_after_three:
  "currentPosition (typeKeys [(''a'', a1, a2), (''b'', b1, b2), ('' '', c1, c2)]
      (initialState m [''ab'', ''cd''] c)) = 3 \<and>
   typedChars (typeKeys [(''a'', a1, a2), (''b'', b1, b2), ('' '', c1, c2)]
      (initialState m [''ab'', ''cd''] c)) 2 = Some True"
  by (simp add: run_defs updater_defs Let_def)

lemma ab_cd_final:
  "currentPosition (typeKeys [(''a'', a1, a2), (''b'', b1, b2), ('' '', c1, c2),
      (''c'', d1, d2), (''d'', e1, e2)] (initialState m [''ab'', ''cd''] c)) = 5"
  "isComplete (typeKeys [(''a'', a1, a2), (''b'', b1, b2), ('' '', c1, c2),
      (''c'', d1, d2), (''d'', e1, e2)] (initialState m [''ab'', ''cd''] c))"
  "session (typeKeys [(''a'', a1, a2), (''b'', b1, b2), ('' '', c1, c2),
      (''c'', d1, d2), (''d'', e1, e2)] (initialState m [''ab'', ''cd''] c))
     = \<lparr>isRunning = False, startTime = Some a1, endTime = Some e2,
        characterCount = 5, errorCount = 0\<rparr>"
  by (simp_all add: run_defs updater_defs Let_def)

lemma calculateWPM_succeeds: "0 < d \<Longrightarrow> \<exists>v. calculateWPM c d = Inr v"
  by (simp add: calculateWPM_def Let_def)

lemma ab_cd_wrong_key_at_space:
  "currentPosition (typeKeys [(''a'', a1, a2), (''b'', b1, b2), (''x'', c1, c2)]
      (initialState m [''ab'', ''cd''] c)) = 3 \<and>
   typedChars (typeKeys [(''a'', a1, a2), (''b'', b1, b2), (''x'', c1, c2)]
      (initialState m [''ab'', ''cd''] c)) 2 = Some False \<and>
   errorCount (session (typeKeys [(''a'', a1, a2), (''b'', b1, b2), (''x'', c1, c2)]
      (initialState m [''ab'', ''cd''] c))) = 1"
  by (simp add: run_defs updater_defs Let_def)

lemma ab_cd_space_at_letter:
  "currentPosition (typeKeys [('' '', a1, a2)] (initialState m [''ab'', ''cd''] c)) = 1 \<and>
   typedChars (typeKeys [('' '', a1, a2)] (initialState m [''ab'', ''cd''] c)) 0 = Some False \<and>
   errorCount (session (typeKeys [('' '', a1, a2)] (initialState m [''ab'', ''cd''] c))) = 1"
  by (simp add: run_defs updater_defs Let_def)

lemma handleKeyDown_character_step:
  assumes "\<not> isComplete s" "length key = 1" "currentPosition s < length (text' s)"
  shows "currentPosition (handleKeyDown (key, t1, t2) s) = currentPosition s + 1"
    and "typedChars (handleKeyDown (key, t1, t2) s) (currentPosition s)
           = Some (key = [text' s ! currentPosition s])"
    and "characterCount (session (handleKeyDown (key, t1, t2) s))
           = characterCount (session s) + 1"
    and "errorCount (session (handleKeyDown (key, t1, t2) s))
           = errorCount (session s) + (if key = [text' s ! currentPosition s] then 0 else 1)"
  using assms by (auto simp add: handleKeyDown_def updater_defs Let_def)

text \<open>
  Claim C4. The separator is matched literally, as any other character, and nothing is
  skipped: in every state that is not complete, a one-character key at a cursor inside
  the text moves the cursor by exactly one, logs at the old position whether the key is
  the character of the text there, and counts one character, and one error when it is
  not. The text of the words \<open>ab\<close> and \<open>cd\<close> is \<open>ab cd\<close>, of length 5. After \<open>a\<close>, \<open>b\<close>
  and the space the cursor is at 3 and position 2 is logged as correct; with \<open>x\<close> in
  place of the space it is logged as wrong and counted as an error; a space typed at the
  first letter is wrong and moves the cursor to 1, not to the next word. After the five
  keystrokes \<open>a\<close>, \<open>b\<close>, space, \<open>c\<close>, \<open>d\<close>, at any clock readings, the cursor is at 5, the
  test is complete, \<open>characterCount\<close> is 5, \<open>errorCount\<close> is 0, and the net WPM is the
  gross WPM, both computed without error at any render time.
\<close>

theorem ab_cd_scenario:
  "(\<not> isComplete s \<and> length key = 1 \<and> currentPosition s < length (text' s) \<longrightarrow>
      currentPosition (handleKeyDown (key, t1, t2) s) = currentPosition s + 1 \<and>
      typedChars (handleKeyDown (key, t1, t2) s) (currentPosition s)
        = Some (key = [text' s ! currentPosition s]) \<and>
      characterCount (session (handleKeyDown (key, t1, t2) s))
        = characterCount (session s) + 1 \<and>
      errorCount (session (handleKeyDown (key, t1, t2) s))
        = errorCount (session s) + (if key = [text' s ! currentPosition s] then 0 else 1)) \<and>
   text' (initialState m [''ab'', ''cd''] c) = ''ab cd'' \<and>
   length (text' (initialState m [''ab'', ''cd''] c)) = 5 \<and>
   currentPosition (typeKeys [(''a'', a1, a2), (''b'', b1, b2), ('' '', c1, c2)]
      (initialState m [''ab'', ''cd''] c)) = 3 \<and>
   typedChars (typeKeys [(''a'', a1, a2), (''b'', b1, b2), ('' '', c1, c2)]
      (initialState m [''ab'', ''cd''] c)) 2 = Some True \<and>
   currentPosition (typeKeys [(''a'', a1, a2), (''b'', b1, b2), (''x'', c1, c2)]
      (initialState m [''ab'', ''cd''] c)) = 3 \<and>
   typedChars (typeKeys [(''a'', a1, a2), (''b'', b1, b2), (''x'', c1, c2)]
      (initialState m [''ab'', ''cd''] c)) 2 = Some False \<and>
   errorCount (session (typeKeys [(''a'', a1, a2), (''b'', b1, b2), (''x'', c1, c2)]
      (initialState m [''ab'', ''cd''] c))) = 1 \<and>
   currentPosition (typeKeys [('' '', a1, a2)] (initialState m [''ab'', ''cd''] c)) = 1 \<and>
   typedChars (typeKeys [('' '', a1, a2)] (initialState m [''ab'', ''cd''] c)) 0 = Some False \<and>
   errorCount (session (typeKeys [('' '', a1, a2)] (initialState m [''ab'', ''cd''] c))) = 1 \<and>
   currentPosition (typeKeys [(''a'', a1, a2), (''b'', b1, b2), ('' '', c1, c2),
      (''c'', d1, d2), (''d'', e1, e2)] (initialState m [''ab'', ''cd''] c)) = 5 \<and>
   isComplete (typeKeys [(''a'', a1, a2), (''b'', b1, b2), ('' '', c1, c2),
      (''c'', d1, d2), (''d'', e1, e2)] (initialState m [''ab'', ''cd''] c)) \<and>
   characterCount (session (typeKeys [(''a'', a1, a2), (''b'', b1, b2), ('' '', c1, c2),
      (''c'', d1, d2), (''d'', e1, e2)] (initialState m [''ab'', ''cd''] c))) = 5 \<and>
   errorCount (session (typeKeys [(''a'', a1, a2), (''b'', b1, b2), ('' '', c1, c2),
      (''c'', d1, d2), (''d'', e1, e2)] (initialState m [''ab'', ''cd''] c))) = 0 \<and>
   netWpm now (typeKeys [(''a'', a1, a2), (''b'', b1, b2), ('' '', c1, c2),
      (''c'', d1, d2), (''d'', e1, e2)] (initialState m [''ab'', ''cd''] c))
     = grossWpm now (typeKeys [(''a'', a1, a2), (''b'', b1, b2), ('' '', c1, c2),
      (''c'', d1, d2), (''d'', e1, e2)] (initialState m [''ab'', ''cd''] c)) \<and>
   (\<exists>v. grossWpm now (typeKeys [(''a'', a1, a2), (''b'', b1, b2), ('' '', c1, c2),
      (''c'', d1, d2), (''d'', e1, e2)] (initialState m [''ab'', ''cd''] c)) = Inr v)"
proof -
  let ?fin = "typeKeys [(''a'', a1, a2), (''b'', b1, b2), ('' '', c1, c2),
      (''c'', d1, d2), (''d'', e1, e2)] (initialState m [''ab'', ''cd''] c)"
  note fin = ab_cd_final [of a1 a2 b1 b2 c1 c2 d1 d2 e1 e2 m c]
  have step: "\<not> isComplete s \<and> length key = 1 \<and> currentPosition s < length (text' s) \<longrightarrow>
      currentPosition (handleKeyDown (key, t1, t2) s) = currentPosition s + 1 \<and>
      typedChars (handleKeyDown (key, t1, t2) s) (currentPosition s)
        = Some (key = [text' s ! currentPosition s]) \<and>
      characterCount (session (handleKeyDown (key, t1, t2) s))
        = characterCount (session s) + 1 \<and>
      errorCount (session (handleKeyDown (key, t1, t2) s))
        = errorCount (session s) + (if key = [text' s ! currentPosition s] then 0 else 1)"
    using handleKeyDown_character_step [of s key t1 t2] by blast
  have counts: "characterCount (session ?fin) = 5" "errorCount (session ?fin) = 0"
    by (simp_all add: fin(3))
  have same: "netWpm now ?fin = grossWpm now ?fin"
    by (simp add: netWpm_def grossWpm_def correctChars_def counts)
  have "(0::real) < of_int (max (duration now ?fin) 1)" by simp
  then have "\<exists>v. calculateWPM (of_int 5) (of_int (max (duration now ?fin) 1)) = Inr v"
    by (rule calculateWPM_succeeds)
  then have ok: "\<exists>v. grossWpm now ?fin = Inr v"
    by (simp add: grossWpm_def counts)
  have len: "length (text' (initialState m [''ab'', ''cd''] c)) = 5"
    by (simp add: ab_cd_text)
  from step ab_cd_text [of m c] len ab_cd_after_three [of a1 a2 b1 b2 c1 c2 m c]
    ab_cd_wrong_key_at_space [of a1 a2 b1 b2 c1 c2 m c] ab_cd_space_at_letter [of a1 a2 m c]
    fin(1,2) counts same ok
  show ?thesis by blast
qed

theorem ab_cd_scenario_witness:
  "\<not> isComplete (typeKeys [(''a'', 1, 2), (''b'', 3, 4)] (initialState ModeAll [''ab'', ''cd''] True)) \<and>
   length ''x'' = 1 \<and>
   currentPosition (typeKeys [(''a'', 1, 2), (''b'', 3, 4)] (initialState ModeAll [''ab'', ''cd''] True))
     < length (text' (typeKeys [(''a'', 1, 2), (''b'', 3, 4)]
         (initialState ModeAll [''ab'', ''cd''] True))) \<and>
   text' (typeKeys [(''a'', 1, 2), (''b'', 3, 4)] (initialState ModeAll [''ab'', ''cd''] True))
     ! currentPosition (typeKeys [(''a'', 1, 2), (''b'', 3, 4)]
         (initialState ModeAll [''ab'', ''cd''] True)) = CHR '' '' \<and>
   currentPosition (handleKeyDown (''x'', 5, 6)
     (typeKeys [(''a'', 1, 2), (''b'', 3, 4)] (initialState ModeAll [''ab'', ''cd''] True))) = 3 \<and>
   typedChars (handleKeyDown (''x'', 5, 6)
     (typeKeys [(''a'', 1, 2), (''b'', 3, 4)] (initialState ModeAll [''ab'', ''cd''] True))) 2
     = Some False \<and>
   characterCount (session (handleKeyDown (''x'', 5, 6)
     (typeKeys [(''a'', 1, 2), (''b'', 3, 4)] (initialState ModeAll [''ab'', ''cd''] True)))) = 3 \<and>
   errorCount (session (handleKeyDown (''x'', 5, 6)
     (typeKeys [(''a'', 1, 2), (''b'', 3, 4)] (initialState ModeAll [''ab'', ''cd''] True)))) = 1"
proof -
  let ?mid = "typeKeys [(''a'', 1, 2), (''b'', 3, 4)] (initialState ModeAll [''ab'', ''cd''] True)"
  have mid: "\<not> isComplete ?mid" "currentPosition ?mid = 2" "text' ?mid = ''ab cd''"
    "characterCount (session ?mid) = 2" "errorCount (session ?mid) = 0"
    by (simp_all add: run_defs updater_defs Let_def)
  have h: "\<not> isComplete ?mid \<and> length ''x'' = 1 \<and> currentPosition ?mid < length (text' ?mid)"
    by (simp add: mid)
  note T = ab_cd_scenario [where s = ?mid and key = "''x''" and ?t1.0 = 5 and ?t2.0 = 6]
  from T h have
    "currentPosition (handleKeyDown (''x'', 5, 6) ?mid) = currentPosition ?mid + 1 \<and>
     typedChars (handleKeyDown (''x'', 5, 6) ?mid) (currentPosition ?mid)
       = Some (''x'' = [text' ?mid ! currentPosition ?mid]) \<and>
     characterCount (session (handleKeyDown (''x'', 5, 6) ?mid))
       = characterCount (session ?mid) + 1 \<and>
     errorCount (session (handleKeyDown (''x'', 5, 6) ?mid))
       = errorCount (session ?mid) + (if ''x'' = [text' ?mid ! currentPosition ?mid] then 0 else 1)"
    by blast
  then show ?thesis by (simp add: mid)
qed

end
